theory Spec2Isabelle
  imports Complex_Main "HOL-Library.Word" "HOL-Library.Sublist"
begin

section \<open>The recorder component of \<^verbatim>\<open>src/frontend/src/App.jsx\<close>\<close>

text \<open>
  \<^verbatim>\<open>App\<close> is one React component. Its state is three \<^verbatim>\<open>useState\<close> cells
  (\<^verbatim>\<open>recording\<close>, \<^verbatim>\<open>audioUrl\<close>, \<^verbatim>\<open>transcription\<close>) and two \<^verbatim>\<open>useRef\<close> cells
  (\<^verbatim>\<open>mediaRecorderRef\<close>, \<^verbatim>\<open>audioChunksRef\<close>). Its code is a set of event handlers:
  \<^verbatim>\<open>startRecording\<close>, \<^verbatim>\<open>stopRecording\<close>, the recorder's \<^verbatim>\<open>ondataavailable\<close> and
  \<^verbatim>\<open>onstop\<close>, and the text area's \<^verbatim>\<open>onChange\<close>. Each handler is a function from the
  state to the new state, or to the exception it throws. The handlers read the two
  refs and call the three setters only (all of them stable across renders), never a
  state variable of the render they were created in, so a setter is an assignment.

  The browser objects the handlers touch are part of the state as well: the media
  streams handed out by \<^verbatim>\<open>getUserMedia\<close>, the \<^verbatim>\<open>MediaRecorder\<close> objects, the
  object URLs made by \<^verbatim>\<open>URL.createObjectURL\<close> and the requests given to
  \<^verbatim>\<open>fetch\<close>. An object is named by its index in the list that holds it.
\<close>

subsection \<open>Blobs\<close>

type_synonym byte = "8 word"

record blob =
  blob_bytes :: "byte list"
  blob_type :: string

text \<open>\<^verbatim>\<open>new Blob(parts, { type })\<close> on an array of blobs: the bytes of the parts, in the
  order of the array.\<close>

definition new_Blob :: "blob list \<Rightarrow> string \<Rightarrow> blob" where
  "new_Blob parts ty = \<lparr>blob_bytes = concat (map blob_bytes parts), blob_type = ty\<rparr>"

definition blob_size :: "blob \<Rightarrow> nat" where
  "blob_size b = length (blob_bytes b)"

subsection \<open>JavaScript values that reach the component\<close>

text \<open>What \<^verbatim>\<open>res.json()\<close> resolves to. A number is a double; only its test against
  zero is used (\<^verbatim>\<open>NaN\<close> is not JSON). The members of an object are in the order of
  the text.\<close>

datatype json =
    JNull
  | JBool bool
  | JNum real
  | JStr string
  | JArr "json list"
  | JObj "(string \<times> json) list"

datatype js_error = JsError (err_name: string) (message: string)

text \<open>\<^verbatim>\<open>ToBoolean\<close>: \<^verbatim>\<open>null\<close>, \<^verbatim>\<open>false\<close>, \<^verbatim>\<open>0\<close> and \<^verbatim>\<open>""\<close> are falsy, every array
  and object is truthy.\<close>

fun truthy :: "json \<Rightarrow> bool" where
  "truthy JNull = False"
| "truthy (JBool b) = b"
| "truthy (JNum x) = (x \<noteq> 0)"
| "truthy (JStr s) = (s \<noteq> [])"
| "truthy (JArr xs) = True"
| "truthy (JObj kvs) = True"

text \<open>The message of the \<^verbatim>\<open>TypeError\<close> for a property read on \<^verbatim>\<open>null\<close> is the
  engine's own; this is V8's wording.\<close>

definition null_property_error :: "string \<Rightarrow> js_error" where
  "null_property_error p =
     JsError ''TypeError''
       (''Cannot read properties of null (reading '' @ [CHR 0x27] @ p @ [CHR 0x27] @ '')'')"

text \<open>\<^verbatim>\<open>data.transcription\<close>. \<^verbatim>\<open>None\<close> is \<^verbatim>\<open>undefined\<close>. On \<^verbatim>\<open>null\<close> the read throws.
  A boolean, number, string or array has no property of that name. In an object a
  repeated key keeps its last value, as \<^verbatim>\<open>JSON.parse\<close> does.\<close>

fun data_transcription :: "json \<Rightarrow> js_error + json option" where
  "data_transcription JNull = Inl (null_property_error ''transcription'')"
| "data_transcription (JObj kvs) = Inr (map_of (rev kvs) ''transcription'')"
| "data_transcription d = Inr None"

text \<open>\<^verbatim>\<open>v || d\<close>, for \<^verbatim>\<open>v\<close> the result of a property read.\<close>

fun js_or :: "json option \<Rightarrow> json \<Rightarrow> json" where
  "js_or None d = d"
| "js_or (Some v) d = (if truthy v then v else d)"

subsection \<open>Streams, recorders, requests\<close>

datatype ready_state = Live | Ended

record track =
  kind :: string
  readyState :: ready_state

record media_stream =
  stream_id :: string
  tracks :: "track list"

text \<open>A stream is active when one of its tracks is live.\<close>

definition stream_active :: "media_stream \<Rightarrow> bool" where
  "stream_active st = list_ex (\<lambda>t. readyState t = Live) (tracks st)"

text \<open>\<^verbatim>\<open>MediaRecorder.state\<close>; the component never pauses a recorder.\<close>

datatype recording_state = Inactive | Recording

record media_recorder =
  rec_stream :: nat
  rec_state :: recording_state

record form_part =
  part_name :: string
  part_blob :: blob
  part_filename :: string

datatype body = FormData "form_part list"

record request =
  req_url :: string
  req_method :: string
  req_body :: body

text \<open>\<^verbatim>\<open>fetch\<close> sends a \<^verbatim>\<open>FormData\<close> body as \<^verbatim>\<open>multipart/form-data\<close>, one part for
  each entry.\<close>

fun content_type :: "body \<Rightarrow> string" where
  "content_type (FormData ps) = ''multipart/form-data''"

fun body_parts :: "body \<Rightarrow> form_part list" where
  "body_parts (FormData ps) = ps"

subsection \<open>The state of the component\<close>

record app_state =
  recording :: bool
  audioUrl :: "nat option"
  transcription :: json
  mediaRecorderRef :: "nat option"
  audioChunksRef :: "blob list"
  streams :: "media_stream list"
  recorders :: "media_recorder list"
  object_urls :: "blob list"
  requests :: "request list"

text \<open>The first render: \<^verbatim>\<open>useState(false)\<close>, \<^verbatim>\<open>useState(null)\<close>, \<^verbatim>\<open>useState("")\<close>,
  \<^verbatim>\<open>useRef(null)\<close>, \<^verbatim>\<open>useRef([])\<close>; the page has made no browser object yet.\<close>

definition init :: app_state where
  "init = \<lparr>recording = False, audioUrl = None, transcription = JStr [],
            mediaRecorderRef = None, audioChunksRef = [],
            streams = [], recorders = [], object_urls = [], requests = []\<rparr>"

subsection \<open>\<^verbatim>\<open>startRecording\<close>\<close>

text \<open>\<^verbatim>\<open>MediaRecorder.start()\<close> on the recorder \<open>r\<close>: \<^verbatim>\<open>InvalidStateError\<close> when the
  recorder is not inactive, \<^verbatim>\<open>NotSupportedError\<close> when its stream is inactive.\<close>

definition recorder_start :: "app_state \<Rightarrow> nat \<Rightarrow> js_error + app_state" where
  "recorder_start s r =
     (let m = recorders s ! r in
      if rec_state m \<noteq> Inactive then Inl (JsError ''InvalidStateError'' ''recorder is not inactive'')
      else if \<not> stream_active (streams s ! rec_stream m)
        then Inl (JsError ''NotSupportedError'' ''stream is inactive'')
      else Inr (s\<lparr>recorders := (recorders s)[r := m\<lparr>rec_state := Recording\<rparr>]\<rparr>))"

text \<open>
  The parameter is how \<^verbatim>\<open>await navigator.mediaDevices.getUserMedia({ audio: true })\<close>
  settled: rejected with an error, or resolved with a new stream. Nothing is written
  before the \<^verbatim>\<open>await\<close>, so the handler is one step, taken when the promise settles.
  A rejection is not caught: the handler's own promise rejects with it.
\<close>

definition startRecording :: "app_state \<Rightarrow> js_error + media_stream \<Rightarrow> js_error + app_state" where
  "startRecording s gum =
     (case gum of
        Inl err \<Rightarrow> Inl err
      | Inr stream \<Rightarrow>
          let sid = length (streams s);
              mediaRecorder = length (recorders s);
              s1 = s\<lparr>streams := streams s @ [stream],
                     recorders := recorders s @ [\<lparr>rec_stream = sid, rec_state = Inactive\<rparr>]\<rparr>;
              s2 = s1\<lparr>audioChunksRef := []\<rparr>;
              s3 = s2\<lparr>mediaRecorderRef := Some mediaRecorder\<rparr>
          in (case recorder_start s3 mediaRecorder of
                Inl err \<Rightarrow> Inl err
              | Inr s4 \<Rightarrow> Inr (s4\<lparr>recording := True\<rparr>)))"

subsection \<open>The recorder's handlers\<close>

text \<open>\<^verbatim>\<open>ondataavailable\<close>: \<^verbatim>\<open>audioChunksRef.current.push(e.data)\<close>.\<close>

definition ondataavailable :: "app_state \<Rightarrow> blob \<Rightarrow> app_state" where
  "ondataavailable s d = s\<lparr>audioChunksRef := audioChunksRef s @ [d]\<rparr>"

text \<open>\<^verbatim>\<open>onstop\<close>, lines 23 to 25: the blob, its object URL, \<^verbatim>\<open>setAudioUrl\<close>.\<close>

definition finalized :: "app_state \<Rightarrow> blob" where
  "finalized s = new_Blob (audioChunksRef s) ''audio/wav''"

definition onstop_finalize :: "app_state \<Rightarrow> app_state" where
  "onstop_finalize s =
     (let blob = finalized s;
          url = length (object_urls s)
      in s\<lparr>object_urls := object_urls s @ [blob], audioUrl := Some url\<rparr>)"

text \<open>\<^verbatim>\<open>onstop\<close>, lines 27 to 34: the form and the call of \<^verbatim>\<open>fetch\<close>, which returns
  a promise and throws nothing.\<close>

definition upload_request :: "blob \<Rightarrow> request" where
  "upload_request blob =
     (let formData = [\<lparr>part_name = ''audio_file'', part_blob = blob, part_filename = ''audio.wav''\<rparr>]
      in \<lparr>req_url = ''http://127.0.0.1:8000/api/transcribe'', req_method = ''POST'',
          req_body = FormData formData\<rparr>)"

definition onstop_upload :: "app_state \<Rightarrow> blob \<Rightarrow> app_state" where
  "onstop_upload s blob = s\<lparr>requests := requests s @ [upload_request blob]\<rparr>"

definition onstop :: "app_state \<Rightarrow> app_state" where
  "onstop s = onstop_upload (onstop_finalize s) (finalized s)"

text \<open>
  \<^verbatim>\<open>onstop\<close>, lines 36 to 40, run when the request has settled. The request ends in
  one of three ways: \<^verbatim>\<open>fetch\<close> rejects, \<^verbatim>\<open>res.json()\<close> rejects, or \<^verbatim>\<open>res.json()\<close>
  resolves with a value.
\<close>

datatype fetch_outcome =
    FetchRejected js_error
  | JsonRejected js_error
  | JsonResolved json

text \<open>The body of the \<^verbatim>\<open>try\<close>: the value given to \<^verbatim>\<open>setTranscription\<close>, or what is
  thrown.\<close>

fun try_body :: "fetch_outcome \<Rightarrow> js_error + json" where
  "try_body (FetchRejected err) = Inl err"
| "try_body (JsonRejected err) = Inl err"
| "try_body (JsonResolved data) =
     (case data_transcription data of
        Inl err \<Rightarrow> Inl err
      | Inr v \<Rightarrow> Inr (js_or v (JStr [])))"

definition error_text :: "js_error \<Rightarrow> string" where
  "error_text err = ''Error al transcribir: '' @ message err"

definition onsettled :: "app_state \<Rightarrow> fetch_outcome \<Rightarrow> app_state" where
  "onsettled s out =
     (case try_body out of
        Inr t \<Rightarrow> s\<lparr>transcription := t\<rparr>
      | Inl err \<Rightarrow> s\<lparr>transcription := JStr (error_text err)\<rparr>)"

subsection \<open>\<^verbatim>\<open>stopRecording\<close> and the text area\<close>

text \<open>\<^verbatim>\<open>MediaRecorder.stop()\<close> on the recorder \<open>r\<close>: the recorder becomes inactive
  (it stays so when it was); its last \<^verbatim>\<open>dataavailable\<close> and its \<^verbatim>\<open>stop\<close> event are
  fired later, from a task of their own. The stream is not an argument.\<close>

definition recorder_stop :: "media_recorder list \<Rightarrow> nat \<Rightarrow> media_recorder list" where
  "recorder_stop rs r = (if r < length rs then rs[r := (rs ! r)\<lparr>rec_state := Inactive\<rparr>] else rs)"

text \<open>\<^verbatim>\<open>mediaRecorderRef.current.stop()\<close> reads a property of \<^verbatim>\<open>null\<close> when the ref
  holds no recorder.\<close>

definition stopRecording :: "app_state \<Rightarrow> js_error + app_state" where
  "stopRecording s =
     (case mediaRecorderRef s of
        None \<Rightarrow> Inl (null_property_error ''stop'')
      | Some r \<Rightarrow> Inr (s\<lparr>recorders := recorder_stop (recorders s) r, recording := False\<rparr>))"

definition onChange :: "app_state \<Rightarrow> string \<Rightarrow> app_state" where
  "onChange s v = s\<lparr>transcription := JStr v\<rparr>"

subsection \<open>What is rendered\<close>

datatype button = StartButton | StopButton

record view =
  toggle :: button
  audio_src :: "nat option"
  textarea_value :: json

text \<open>The \<^verbatim>\<open>audio\<close> element is there when \<^verbatim>\<open>audioUrl\<close> is truthy; an object URL is
  never the empty string.\<close>

definition render :: "app_state \<Rightarrow> view" where
  "render s =
     \<lparr>toggle = (if \<not> recording s then StartButton else StopButton),
      audio_src = audioUrl s,
      textarea_value = transcription s\<rparr>"

subsection \<open>Events\<close>

text \<open>
  One event is one run of a handler. \<^verbatim>\<open>ClickSend\<close> is the last button, which only
  logs. Every recorder gets the same two handlers and they name no variable of the
  call that made them, so an event of a recorder does not say which recorder fired it.
\<close>

datatype event =
    ClickStart "js_error + media_stream"
  | ClickStop
  | DataAvailable blob
  | Stopped
  | Settled fetch_outcome
  | Change string
  | ClickSend

fun step :: "app_state \<Rightarrow> event \<Rightarrow> js_error + app_state" where
  "step s (ClickStart gum) = startRecording s gum"
| "step s ClickStop = stopRecording s"
| "step s (DataAvailable d) = Inr (ondataavailable s d)"
| "step s Stopped = Inr (onstop s)"
| "step s (Settled out) = Inr (onsettled s out)"
| "step s (Change v) = Inr (onChange s v)"
| "step s ClickSend = Inr s"

text \<open>A run ends at the first exception that no handler catches; what the page does
  after one is not part of the model.\<close>

fun run :: "app_state \<Rightarrow> event list \<Rightarrow> js_error + app_state" where
  "run s [] = Inr s"
| "run s (e # es) = (case step s e of Inl err \<Rightarrow> Inl err | Inr s' \<Rightarrow> run s' es)"

text \<open>The fragments a list of events delivers, in order.\<close>

fun fragments :: "event list \<Rightarrow> blob list" where
  "fragments [] = []"
| "fragments (DataAvailable d # es) = d # fragments es"
| "fragments (e # es) = fragments es"

fun is_start :: "event \<Rightarrow> bool" where
  "is_start (ClickStart gum) = True"
| "is_start e = False"

definition no_start :: "event list \<Rightarrow> bool" where
  "no_start es = list_all (\<lambda>e. \<not> is_start e) es"

subsection \<open>The response as the specification words it\<close>

text \<open>
  These two follow the specification, not the code, and are what the code is compared
  with: "extracts a \<^verbatim>\<open>transcription\<close> field (defaulting to an empty string if
  absent)". A response has the field when it is an object with a member of that name.
\<close>

fun spec_transcription_field :: "json \<Rightarrow> json option" where
  "spec_transcription_field (JObj kvs) = map_of (rev kvs) ''transcription''"
| "spec_transcription_field d = None"

definition spec_displayed :: "json \<Rightarrow> json" where
  "spec_displayed d = (case spec_transcription_field d of Some v \<Rightarrow> v | None \<Rightarrow> JStr [])"

subsection \<open>Sample values\<close>

definition mic :: media_stream where
  "mic = \<lparr>stream_id = ''mic'', tracks = [\<lparr>kind = ''audio'', readyState = Live\<rparr>]\<rparr>"

definition chunk :: "byte list \<Rightarrow> blob" where
  "chunk bs = \<lparr>blob_bytes = bs, blob_type = ''audio/webm''\<rparr>"

definition failed_to_fetch :: js_error where
  "failed_to_fetch = JsError ''TypeError'' ''Failed to fetch''"

text \<open>The state after \<^verbatim>\<open>startRecording\<close> in the first render has resolved \<open>mic\<close>.\<close>

definition capturing :: app_state where
  "capturing = init\<lparr>streams := [mic], recorders := [\<lparr>rec_stream = 0, rec_state = Recording\<rparr>],
                    mediaRecorderRef := Some 0, recording := True\<rparr>"

section \<open>Properties\<close>

subsection \<open>Runs\<close>

lemma run_append:
  "run s (es @ fs) = (case run s es of Inl err \<Rightarrow> Inl err | Inr s' \<Rightarrow> run s' fs)"
  by (induction es arbitrary: s) (auto split: sum.splits)

lemma no_start_Cons: "no_start (e # es) = (\<not> is_start e \<and> no_start es)"
  by (simp add: no_start_def)

lemma no_start_append: "no_start (es @ fs) = (no_start es \<and> no_start fs)"
  by (simp add: no_start_def)

lemma fragments_Cons: "fragments (e # es) = fragments [e] @ fragments es"
  by (cases e) simp_all

lemma fragments_append: "fragments (es @ fs) = fragments es @ fragments fs"
proof (induction es)
  case Nil
  show ?case by simp
next
  case (Cons e es)
  have "fragments ((e # es) @ fs) = fragments [e] @ fragments (es @ fs)"
    using fragments_Cons [of e "es @ fs"] by simp
  also have "\<dots> = fragments [e] @ fragments es @ fragments fs"
    using Cons.IH by simp
  also have "\<dots> = fragments (e # es) @ fragments fs"
    using fragments_Cons [of e es] by simp
  finally show ?case .
qed

text \<open>Only \<^verbatim>\<open>ondataavailable\<close> and \<^verbatim>\<open>startRecording\<close> write \<^verbatim>\<open>audioChunksRef.current\<close>.\<close>

lemma step_chunks:
  assumes "step s e = Inr s'" and "\<not> is_start e"
  shows "audioChunksRef s' = audioChunksRef s @ fragments [e]"
  using assms
  by (cases e)
     (auto simp: stopRecording_def ondataavailable_def onstop_def onstop_upload_def
        onstop_finalize_def onsettled_def onChange_def Let_def split: option.splits sum.splits)

lemma run_chunks:
  assumes "run s es = Inr s'" and "no_start es"
  shows "audioChunksRef s' = audioChunksRef s @ fragments es"
  using assms
proof (induction es arbitrary: s)
  case Nil
  then show ?case by simp
next
  case (Cons e es)
  from Cons.prems(1) obtain s1 where s1: "step s e = Inr s1" and r: "run s1 es = Inr s'"
    by (auto split: sum.splits)
  from Cons.prems(2) have ne: "\<not> is_start e" and ns: "no_start es"
    by (simp_all add: no_start_Cons)
  have "audioChunksRef s' = audioChunksRef s1 @ fragments es"
    using Cons.IH [OF r ns] .
  also have "audioChunksRef s1 = audioChunksRef s @ fragments [e]"
    using step_chunks [OF s1 ne] .
  finally show ?case
    using fragments_Cons [of e es] by simp
qed

text \<open>Once the ref holds a recorder, no handler but \<^verbatim>\<open>startRecording\<close> can throw.\<close>

lemma step_returns:
  assumes "mediaRecorderRef s = Some r" and "\<not> is_start e"
  shows "\<exists>s'. step s e = Inr s' \<and> mediaRecorderRef s' = Some r"
  using assms
  by (cases e)
     (auto simp: stopRecording_def ondataavailable_def onstop_def onstop_upload_def
        onstop_finalize_def onsettled_def onChange_def Let_def split: option.splits sum.splits)

lemma run_returns:
  assumes "mediaRecorderRef s = Some r" and "no_start es"
  shows "\<exists>s'. run s es = Inr s' \<and> mediaRecorderRef s' = Some r"
  using assms
proof (induction es arbitrary: s)
  case Nil
  then show ?case by simp
next
  case (Cons e es)
  from Cons.prems(2) have ne: "\<not> is_start e" and ns: "no_start es"
    by (simp_all add: no_start_Cons)
  from step_returns [OF Cons.prems(1) ne] obtain s1
    where s1: "step s e = Inr s1" and r1: "mediaRecorderRef s1 = Some r"
    by blast
  from Cons.IH [OF r1 ns] obtain s'
    where "run s1 es = Inr s'" and "mediaRecorderRef s' = Some r"
    by blast
  with s1 show ?case by simp
qed

text \<open>\<^verbatim>\<open>startRecording\<close> on a stream that is active, as a stream just resolved by
  \<^verbatim>\<open>getUserMedia\<close> is.\<close>

lemma startRecording_active:
  assumes "stream_active st"
  shows "startRecording s (Inr st) =
     Inr (s\<lparr>streams := streams s @ [st],
            recorders := recorders s @ [\<lparr>rec_stream = length (streams s), rec_state = Recording\<rparr>],
            audioChunksRef := [],
            mediaRecorderRef := Some (length (recorders s)),
            recording := True\<rparr>)"
  using assms by (simp add: startRecording_def recorder_start_def Let_def)

text \<open>A session: a start that succeeds, then any events but another start.\<close>

lemma session_chunks:
  assumes "stream_active st" and "no_start es"
  shows "\<exists>s'. run s (ClickStart (Inr st) # es) = Inr s' \<and> audioChunksRef s' = fragments es"
proof -
  obtain s1 where s1: "startRecording s (Inr st) = Inr s1"
    and c1: "audioChunksRef s1 = []" and r1: "mediaRecorderRef s1 = Some (length (recorders s))"
    using startRecording_active [OF assms(1), of s] by simp
  from run_returns [OF r1 assms(2)] obtain s' where s': "run s1 es = Inr s'"
    by blast
  have "audioChunksRef s' = fragments es"
    using run_chunks [OF s' assms(2)] c1 by simp
  with s1 s' show ?thesis by simp
qed

lemma onstop_simps:
  "object_urls (onstop s) = object_urls s @ [finalized s]"
  "audioUrl (onstop s) = Some (length (object_urls s))"
  "requests (onstop s) = requests s @ [upload_request (finalized s)]"
  "audioChunksRef (onstop s) = audioChunksRef s"
  "transcription (onstop s) = transcription s"
  by (simp_all add: onstop_def onstop_upload_def onstop_finalize_def Let_def)

lemma blob_bytes_finalized:
  "blob_bytes (finalized s) = concat (map blob_bytes (audioChunksRef s))"
  by (simp add: finalized_def new_Blob_def)

lemma upload_request_blob:
  "map part_blob (body_parts (req_body (upload_request b))) = [b]"
  by (simp add: upload_request_def)

subsection \<open>The finalized binary\<close>




text \<open>
  C7. A start that succeeds, the click on stop and the recorder's \<^verbatim>\<open>stop\<close> event, with
  no fragment between them: every handler returns, and the blob that \<^verbatim>\<open>onstop\<close>
  builds from the empty list has no bytes.
\<close>

theorem empty_session_empty_blob:
  assumes "stream_active st"
  shows "\<exists>s1. run s [ClickStart (Inr st), ClickStop] = Inr s1
           \<and> run s [ClickStart (Inr st), ClickStop, Stopped] = Inr (onstop s1)
           \<and> audioChunksRef s1 = []
           \<and> blob_size (finalized s1) = 0
           \<and> last (object_urls (onstop s1)) = finalized s1
           \<and> map part_blob (body_parts (req_body (last (requests (onstop s1))))) = [finalized s1]"
proof -
  have n: "no_start [ClickStop]"
    by (simp add: no_start_def)
  from session_chunks [OF assms n] obtain s1
    where r: "run s [ClickStart (Inr st), ClickStop] = Inr s1" and c: "audioChunksRef s1 = []"
    by auto
  have "run s ([ClickStart (Inr st), ClickStop] @ [Stopped]) = Inr (onstop s1)"
    unfolding run_append using r by simp
  then have "run s [ClickStart (Inr st), ClickStop, Stopped] = Inr (onstop s1)"
    by simp
  moreover have "blob_size (finalized s1) = 0"
    using c by (simp add: blob_size_def blob_bytes_finalized)
  moreover have "last (object_urls (onstop s1)) = finalized s1"
    by (simp add: onstop_simps)
  moreover have
    "map part_blob (body_parts (req_body (last (requests (onstop s1))))) = [finalized s1]"
    by (simp add: onstop_simps upload_request_blob)
  ultimately show ?thesis using r c by (intro exI [of _ s1]) simp
qed

theorem empty_session_empty_blob_witness:
  "stream_active mic
   \<and> (\<exists>s1. run init [ClickStart (Inr mic), ClickStop, Stopped] = Inr (onstop s1)
            \<and> blob_size (finalized s1) = 0)"
proof -
  have a: "stream_active mic"
    by (simp add: mic_def stream_active_def)
  from empty_session_empty_blob [OF a, of init] obtain s1
    where "run init [ClickStart (Inr mic), ClickStop, Stopped] = Inr (onstop s1)"
      and "blob_size (finalized s1) = 0"
    by blast
  then show ?thesis using a by blast
qed

subsection \<open>A second session\<close>

text \<open>Requests are only ever added, by \<^verbatim>\<open>onstop\<close>, at the end of the list.\<close>

lemma step_requests:
  assumes "step s e = Inr s'"
  shows "prefix (requests s) (requests s')"
  using assms
  by (cases e)
     (auto simp: startRecording_def recorder_start_def stopRecording_def ondataavailable_def
        onstop_def onstop_upload_def onstop_finalize_def onsettled_def onChange_def Let_def
        split: option.splits sum.splits if_splits)

lemma run_requests:
  assumes "run s es = Inr s'"
  shows "prefix (requests s) (requests s')"
  using assms
proof (induction es arbitrary: s)
  case Nil
  then show ?case by simp
next
  case (Cons e es)
  from Cons.prems obtain s1 where s1: "step s e = Inr s1" and r: "run s1 es = Inr s'"
    by (auto split: sum.splits)
  from step_requests [OF s1] Cons.IH [OF r] show ?case
    by (rule prefix_order.trans)
qed

text \<open>
  C4. The first session's \<^verbatim>\<open>stop\<close> event is handled in any state \<open>s0\<close>, which issues
  its upload. A second recording is started before that upload settles; the upload
  settles, with any outcome, at any moment of the second session (\<open>es1\<close> comes before
  it, \<open>es2\<close> after it, neither holds another start). The first recorder has fired
  its \<^verbatim>\<open>stop\<close> event, which is its last, so the fragments of \<open>es1\<close> and \<open>es2\<close> are
  those of the second recorder. No handler throws, the fragment
  list is then exactly the fragments delivered since the second start, whatever
  \<open>s0\<close> had accumulated, and the blob of the first upload is still the one
  finalized from \<open>s0\<close>.
\<close>

theorem second_session_independent:
  assumes "stream_active st" and "no_start es1" and "no_start es2"
  shows "\<exists>s'. run s0 (Stopped # ClickStart (Inr st) # es1 @ Settled out # es2) = Inr s'
           \<and> audioChunksRef s' = fragments es1 @ fragments es2
           \<and> blob_bytes (finalized s') = concat (map blob_bytes (fragments es1 @ fragments es2))
           \<and> requests s' ! length (requests s0) = upload_request (finalized s0)"
proof -
  let ?es = "es1 @ Settled out # es2"
  have n: "no_start ?es"
    using assms(2,3) by (simp add: no_start_append no_start_Cons)
  have f: "fragments ?es = fragments es1 @ fragments es2"
    using fragments_append [of es1 "Settled out # es2"] by simp
  from session_chunks [OF assms(1) n, of "onstop s0"] obtain s'
    where r: "run (onstop s0) (ClickStart (Inr st) # ?es) = Inr s'"
      and c: "audioChunksRef s' = fragments ?es"
    by blast
  have r0: "run s0 (Stopped # ClickStart (Inr st) # ?es) = Inr s'"
    using r by simp
  have c': "audioChunksRef s' = fragments es1 @ fragments es2"
    using c f by simp
  have "prefix (requests (onstop s0)) (requests s')"
    using run_requests [OF r] .
  then obtain rest where "requests s' = (requests s0 @ [upload_request (finalized s0)]) @ rest"
    by (auto simp: prefix_def onstop_simps)
  then have q: "requests s' ! length (requests s0) = upload_request (finalized s0)"
    by (simp add: nth_append)
  have "blob_bytes (finalized s') = concat (map blob_bytes (fragments es1 @ fragments es2))"
    using c' by (simp add: blob_bytes_finalized)
  with r0 c' q show ?thesis
    by (intro exI [of _ s']) simp
qed

theorem second_session_independent_witness:
  "stream_active mic
   \<and> no_start [DataAvailable (chunk [4])] \<and> no_start [DataAvailable (chunk [5, 6]), ClickStop]
   \<and> (\<exists>s'. run (ondataavailable init (chunk [1, 2, 3]))
              (Stopped # ClickStart (Inr mic) # [DataAvailable (chunk [4])]
                 @ Settled (FetchRejected failed_to_fetch)
                 # [DataAvailable (chunk [5, 6]), ClickStop]) = Inr s'
            \<and> audioChunksRef s' = [chunk [4], chunk [5, 6]]
            \<and> blob_bytes (finalized s') = [4, 5, 6]
            \<and> blob_bytes (part_blob (hd (body_parts (req_body (requests s' ! 0))))) = [1, 2, 3])"
proof -
  have a: "stream_active mic"
    by (simp add: mic_def stream_active_def)
  have n1: "no_start [DataAvailable (chunk [4])]"
    by (simp add: no_start_def)
  have n2: "no_start [DataAvailable (chunk [5, 6]), ClickStop]"
    by (simp add: no_start_def)
  from second_session_independent [OF a n1 n2,
      of "ondataavailable init (chunk [1, 2, 3])" "FetchRejected failed_to_fetch"]
  obtain s' where "run (ondataavailable init (chunk [1, 2, 3]))
              (Stopped # ClickStart (Inr mic) # [DataAvailable (chunk [4])]
                 @ Settled (FetchRejected failed_to_fetch)
                 # [DataAvailable (chunk [5, 6]), ClickStop]) = Inr s'"
    and "audioChunksRef s' = fragments [DataAvailable (chunk [4])]
           @ fragments [DataAvailable (chunk [5, 6]), ClickStop]"
    and "blob_bytes (finalized s') = concat (map blob_bytes
           (fragments [DataAvailable (chunk [4])]
              @ fragments [DataAvailable (chunk [5, 6]), ClickStop]))"
    and "requests s' ! length (requests (ondataavailable init (chunk [1, 2, 3])))
           = upload_request (finalized (ondataavailable init (chunk [1, 2, 3])))"
    by blast
  then have "run (ondataavailable init (chunk [1, 2, 3]))
              (Stopped # ClickStart (Inr mic) # [DataAvailable (chunk [4])]
                 @ Settled (FetchRejected failed_to_fetch)
                 # [DataAvailable (chunk [5, 6]), ClickStop]) = Inr s'
            \<and> audioChunksRef s' = [chunk [4], chunk [5, 6]]
            \<and> blob_bytes (finalized s') = [4, 5, 6]
            \<and> blob_bytes (part_blob (hd (body_parts (req_body (requests s' ! 0))))) = [1, 2, 3]"
    by (simp add: chunk_def ondataavailable_def init_def upload_request_def finalized_def
        new_Blob_def)
  then show ?thesis using a n1 n2 by blast
qed

subsection \<open>Stopping\<close>

text \<open>
  C8. \<^verbatim>\<open>stopRecording\<close> in the state of the first render reads \<^verbatim>\<open>stop\<close> of \<^verbatim>\<open>null\<close>:
  it throws a \<^verbatim>\<open>TypeError\<close>, as it does in every state whose ref holds no recorder,
  and returns no signal. It does not look at the \<^verbatim>\<open>recording\<close> flag: its outcome is the
  same whatever the flag is.
\<close>

theorem stop_while_idle_unguarded:
  "stopRecording init = Inl (null_property_error ''stop'')
   \<and> run init [ClickStop] = Inl (null_property_error ''stop'')
   \<and> err_name (null_property_error ''stop'') = ''TypeError''
   \<and> stopRecording (s\<lparr>mediaRecorderRef := None\<rparr>) = Inl (null_property_error ''stop'')
   \<and> stopRecording (s\<lparr>recording := b\<rparr>) = stopRecording s"
  by (simp add: stopRecording_def init_def null_property_error_def split: option.splits)

lemma recorder_stop_stream: "map rec_stream (recorder_stop rs r) = map rec_stream rs"
  by (simp add: recorder_stop_def map_update list_update_same_conv)

text \<open>
  C9. \<^verbatim>\<open>stopRecording\<close>, when the ref holds a recorder, returns a state that differs
  from the one before in that recorder's \<^verbatim>\<open>state\<close> and in the \<^verbatim>\<open>recording\<close> flag only:
  the streams, with every field and every track of each, are the ones before, and
  each recorder still has the stream it had.
\<close>

theorem stop_leaves_stream:
  assumes "mediaRecorderRef s = Some r"
  shows "\<exists>s'. stopRecording s = Inr s'
           \<and> streams s' = streams s
           \<and> map rec_stream (recorders s') = map rec_stream (recorders s)
           \<and> s' = s\<lparr>recorders := recorders s', recording := False\<rparr>"
  using assms by (simp add: stopRecording_def recorder_stop_stream)

theorem stop_leaves_stream_witness:
  "startRecording init (Inr mic) = Inr capturing
   \<and> mediaRecorderRef capturing = Some 0
   \<and> (\<exists>s'. stopRecording capturing = Inr s'
            \<and> streams s' = [mic]
            \<and> map readyState (tracks (streams s' ! 0)) = [Live]
            \<and> map rec_state (recorders s') = [Inactive])"
proof -
  have a: "stream_active mic"
    by (simp add: mic_def stream_active_def)
  have st: "startRecording init (Inr mic) = Inr capturing"
    by (simp add: startRecording_active [OF a] capturing_def init_def)
  have m: "mediaRecorderRef capturing = Some 0"
    by (simp add: capturing_def)
  from stop_leaves_stream [OF m] obtain s'
    where r: "stopRecording capturing = Inr s'" and "streams s' = streams capturing"
    by blast
  then have "streams s' = [mic]"
    by (simp add: capturing_def)
  moreover have "map rec_state (recorders s') = [Inactive]"
    using r by (auto simp: stopRecording_def capturing_def recorder_stop_def)
  ultimately show ?thesis using st m r
    by (simp add: mic_def)
qed

text \<open>So the stream of a session is never released: after a start that succeeds and
  any events but another start, the stream is in the state as it was acquired.\<close>

lemma step_streams:
  assumes "step s e = Inr s'" and "\<not> is_start e"
  shows "streams s' = streams s"
  using assms
  by (cases e)
     (auto simp: stopRecording_def ondataavailable_def onstop_def onstop_upload_def
        onstop_finalize_def onsettled_def onChange_def Let_def split: option.splits sum.splits)

lemma run_streams:
  assumes "run s es = Inr s'" and "no_start es"
  shows "streams s' = streams s"
  using assms
proof (induction es arbitrary: s)
  case Nil
  then show ?case by simp
next
  case (Cons e es)
  from Cons.prems(1) obtain s1 where s1: "step s e = Inr s1" and r: "run s1 es = Inr s'"
    by (auto split: sum.splits)
  from Cons.prems(2) have ne: "\<not> is_start e" and ns: "no_start es"
    by (simp_all add: no_start_Cons)
  from step_streams [OF s1 ne] Cons.IH [OF r ns] show ?case
    by simp
qed

lemma session_stream_not_released:
  assumes "stream_active st" and "no_start es"
  shows "\<exists>s'. run s (ClickStart (Inr st) # es) = Inr s'
           \<and> streams s' ! length (streams s) = st
           \<and> stream_active (streams s' ! length (streams s))"
proof -
  obtain s1 where s1: "startRecording s (Inr st) = Inr s1"
    and t1: "streams s1 = streams s @ [st]"
    and r1: "mediaRecorderRef s1 = Some (length (recorders s))"
    using startRecording_active [OF assms(1), of s] by simp
  from run_returns [OF r1 assms(2)] obtain s' where s': "run s1 es = Inr s'"
    by blast
  have "streams s' = streams s @ [st]"
    using run_streams [OF s' assms(2)] t1 by simp
  then have "streams s' ! length (streams s) = st"
    by simp
  with s1 s' assms(1) show ?thesis by simp
qed

subsection \<open>The upload\<close>

text \<open>
  C6. One run of \<^verbatim>\<open>onstop\<close> adds one request to those the page has issued, and the
  handler of the settled request adds none. The request is a \<^verbatim>\<open>POST\<close> to
  \<^verbatim>\<open>http://127.0.0.1:8000/api/transcribe\<close> whose body is sent as
  \<^verbatim>\<open>multipart/form-data\<close> and has one part, named \<^verbatim>\<open>audio_file\<close>, with the file name
  \<^verbatim>\<open>audio.wav\<close>, holding the finalized blob.
\<close>

theorem one_post_per_upload:
  "requests (onstop s) = requests s @ [upload_request (finalized s)]
   \<and> length (requests (onstop s)) = Suc (length (requests s))
   \<and> requests (onstop_upload t b) = requests t @ [upload_request b]
   \<and> requests (onsettled t out) = requests t
   \<and> req_url (upload_request b) = ''http://127.0.0.1:8000/api/transcribe''
   \<and> req_method (upload_request b) = ''POST''
   \<and> content_type (req_body (upload_request b)) = ''multipart/form-data''
   \<and> body_parts (req_body (upload_request b))
       = [\<lparr>part_name = ''audio_file'', part_blob = b, part_filename = ''audio.wav''\<rparr>]"
  by (simp add: onstop_simps onstop_upload_def onsettled_def upload_request_def
      split: sum.splits)

text \<open>Over a whole run: as many requests as \<^verbatim>\<open>stop\<close> events.\<close>

lemma step_requests_count:
  assumes "step s e = Inr s'"
  shows "length (requests s') = length (requests s) + count_list [e] Stopped"
  using assms
  by (cases e)
     (auto simp: startRecording_def recorder_start_def stopRecording_def ondataavailable_def
        onstop_simps onsettled_def onChange_def Let_def
        split: option.splits sum.splits if_splits)

lemma run_requests_count:
  assumes "run s es = Inr s'"
  shows "length (requests s') = length (requests s) + count_list es Stopped"
  using assms
proof (induction es arbitrary: s)
  case Nil
  then show ?case by simp
next
  case (Cons e es)
  from Cons.prems obtain s1 where s1: "step s e = Inr s1" and r: "run s1 es = Inr s'"
    by (auto split: sum.splits)
  from step_requests_count [OF s1] Cons.IH [OF r] show ?case
    by simp
qed

text \<open>
  C3. When \<^verbatim>\<open>fetch\<close> rejects, or \<^verbatim>\<open>res.json()\<close> rejects, with the error \<open>err\<close>, the
  handler returns (the error is caught) and what it changes is the transcription,
  which becomes the text \<^verbatim>\<open>Error al transcribir: \<close> followed by the message of
  \<open>err\<close>; that is the text the text area shows.
\<close>

theorem upload_failure_is_caught:
  "step s (Settled (FetchRejected err))
     = Inr (s\<lparr>transcription := JStr (''Error al transcribir: '' @ message err)\<rparr>)
   \<and> step s (Settled (JsonRejected err))
     = Inr (s\<lparr>transcription := JStr (''Error al transcribir: '' @ message err)\<rparr>)
   \<and> textarea_value (render (onsettled s (FetchRejected err))) = JStr (error_text err)
   \<and> textarea_value (render (onsettled s (JsonRejected err))) = JStr (error_text err)
   \<and> error_text err = ''Error al transcribir: '' @ message err
   \<and> suffix (message err) (error_text err)
   \<and> sublist (message err) (error_text err)"
  by (simp add: onsettled_def error_text_def render_def suffix_def)

text \<open>
  C5. When the \<^verbatim>\<open>try\<close> of a settled upload throws \<open>err\<close>, the text area shows the
  error text whatever it showed before. If the user had typed \<open>v\<close> just before, the
  state after the failure is the state there would be had they typed nothing: the
  handler asks nothing and nothing of \<open>v\<close> is kept.
\<close>

theorem failure_overwrites_text:
  assumes "try_body out = Inl err"
  shows "textarea_value (render (onsettled s out)) = JStr (error_text err)
         \<and> textarea_value (render (onsettled (onChange s v) out)) = JStr (error_text err)
         \<and> onsettled (onChange s v) out = onsettled s out
         \<and> run s [Change v, Settled out] = run s [Settled out]"
  using assms by (simp add: onsettled_def onChange_def render_def)

theorem failure_overwrites_text_witness:
  "try_body (FetchRejected failed_to_fetch) = Inl failed_to_fetch
   \<and> textarea_value (render (onChange init ''mis notas'')) = JStr ''mis notas''
   \<and> textarea_value (render (onsettled (onChange init ''mis notas'') (FetchRejected failed_to_fetch)))
       = JStr ''Error al transcribir: Failed to fetch''"
proof -
  have t: "try_body (FetchRejected failed_to_fetch) = Inl failed_to_fetch"
    by simp
  have "textarea_value (render (onsettled (onChange init ''mis notas'')
          (FetchRejected failed_to_fetch))) = JStr (error_text failed_to_fetch)"
    using failure_overwrites_text [OF t, of init "''mis notas''"] by blast
  then show ?thesis
    by (simp add: error_text_def failed_to_fetch_def onChange_def render_def)
qed

subsection \<open>The playable reference\<close>

text \<open>
  C10. \<^verbatim>\<open>onstop\<close> first makes the blob and its object URL and gives the URL to
  \<^verbatim>\<open>setAudioUrl\<close>, and no request has been added by then; the request is issued
  after, from that state. Once \<^verbatim>\<open>onstop\<close> has run and its upload has settled, with
  any outcome, the \<^verbatim>\<open>audio\<close> element has the new URL as its source and that URL
  still names the blob finalized by this stop. In any state the handler of a settled
  upload leaves the URL and the registered blobs as they are.
\<close>

theorem playable_reference_set_before_upload:
  "audioUrl (onstop_finalize s) = Some (length (object_urls s))
   \<and> object_urls (onstop_finalize s) ! length (object_urls s) = finalized s
   \<and> requests (onstop_finalize s) = requests s
   \<and> onstop s = onstop_upload (onstop_finalize s) (finalized s)
   \<and> audioUrl (onstop_upload t b) = audioUrl t
   \<and> audio_src (render (onstop s)) = Some (length (object_urls s))
   \<and> audio_src (render (onsettled (onstop s) out)) = Some (length (object_urls s))
   \<and> object_urls (onsettled (onstop s) out) ! length (object_urls s) = finalized s
   \<and> audioUrl (onsettled t out) = audioUrl t
   \<and> object_urls (onsettled t out) = object_urls t"
  by (simp add: onstop_def onstop_finalize_def onstop_upload_def onsettled_def render_def Let_def
      split: sum.splits)

subsection \<open>The text of a response\<close>

text \<open>
  C2, as the specification has it, fails in two places. For the response \<^verbatim>\<open>null\<close>,
  which has no field, the read of the field throws and the text area shows the error
  text, not the empty string. For the response \<^verbatim>\<open>{"transcription": 0}\<close> the field is
  there, and the text area shows the empty string.
\<close>

theorem displayed_text_counterexample:
  "spec_displayed JNull = JStr []
   \<and> textarea_value (render (onsettled init (JsonResolved JNull)))
       = JStr (''Error al transcribir: Cannot read properties of null (reading ''
               @ [CHR 0x27] @ ''transcription'' @ [CHR 0x27] @ '')'')
   \<and> textarea_value (render (onsettled init (JsonResolved JNull))) \<noteq> spec_displayed JNull
   \<and> spec_displayed (JObj [(''transcription'', JNum 0)]) = JNum 0
   \<and> textarea_value (render (onsettled init (JsonResolved (JObj [(''transcription'', JNum 0)]))))
       = JStr []
   \<and> textarea_value (render (onsettled init (JsonResolved (JObj [(''transcription'', JNum 0)]))))
       \<noteq> spec_displayed (JObj [(''transcription'', JNum 0)])"
  by (simp add: spec_displayed_def onsettled_def render_def error_text_def
      null_property_error_def)

text \<open>
  C2, amended. For every response but \<^verbatim>\<open>null\<close>, the text area shows the field when
  the response has it and it is truthy, and the empty string, with no error, when
  the field is absent or falsy. So a field that is a string is shown as it is, and
  \<^verbatim>\<open>{"transcription": "hola"}\<close> shows \<^verbatim>\<open>hola\<close>. For \<^verbatim>\<open>null\<close> the error text is shown.
\<close>

theorem displayed_text_of_response:
  assumes "data \<noteq> JNull"
  shows "textarea_value (render (onsettled s (JsonResolved data)))
           = (case spec_transcription_field data of
                None \<Rightarrow> JStr []
              | Some v \<Rightarrow> if truthy v then v else JStr [])
         \<and> (spec_transcription_field data = Some (JStr t)
              \<longrightarrow> textarea_value (render (onsettled s (JsonResolved data))) = JStr t)
         \<and> textarea_value (render (onsettled s
              (JsonResolved (JObj [(''transcription'', JStr ''hola'')])))) = JStr ''hola''
         \<and> textarea_value (render (onsettled s (JsonResolved JNull)))
              = JStr (error_text (null_property_error ''transcription''))"
proof -
  have d: "data_transcription data = Inr (spec_transcription_field data)"
    using assms by (cases data) simp_all
  have main: "textarea_value (render (onsettled s (JsonResolved data)))
           = (case spec_transcription_field data of
                None \<Rightarrow> JStr []
              | Some v \<Rightarrow> if truthy v then v else JStr [])"
    by (cases "spec_transcription_field data") (simp_all add: onsettled_def render_def d)
  have str: "spec_transcription_field data = Some (JStr t)
              \<longrightarrow> textarea_value (render (onsettled s (JsonResolved data))) = JStr t"
    using main by auto
  have hola: "textarea_value (render (onsettled s
              (JsonResolved (JObj [(''transcription'', JStr ''hola'')])))) = JStr ''hola''"
    by (simp add: onsettled_def render_def)
  have null: "textarea_value (render (onsettled s (JsonResolved JNull)))
              = JStr (error_text (null_property_error ''transcription''))"
    by (simp add: onsettled_def render_def)
  from main str hola null show ?thesis by blast
qed

theorem displayed_text_of_response_witness:
  "JObj [(''id'', JNum 7), (''transcription'', JStr ''buenos dias'')] \<noteq> JNull
   \<and> spec_transcription_field (JObj [(''id'', JNum 7), (''transcription'', JStr ''buenos dias'')])
       = Some (JStr ''buenos dias'')
   \<and> textarea_value (render (onsettled init (JsonResolved
        (JObj [(''id'', JNum 7), (''transcription'', JStr ''buenos dias'')])))) = JStr ''buenos dias''
   \<and> JObj [(''id'', JNum 7)] \<noteq> JNull
   \<and> textarea_value (render (onsettled init (JsonResolved (JObj [(''id'', JNum 7)])))) = JStr []"
proof -
  have a: "JObj [(''id'', JNum 7), (''transcription'', JStr ''buenos dias'')] \<noteq> JNull"
    by simp
  have f: "spec_transcription_field
             (JObj [(''id'', JNum 7), (''transcription'', JStr ''buenos dias'')])
           = Some (JStr ''buenos dias'')"
    by simp
  have b: "JObj [(''id'', JNum 7)] \<noteq> JNull"
    by simp
  have "spec_transcription_field
             (JObj [(''id'', JNum 7), (''transcription'', JStr ''buenos dias'')])
           = Some (JStr ''buenos dias'')
        \<longrightarrow> textarea_value (render (onsettled init (JsonResolved
          (JObj [(''id'', JNum 7), (''transcription'', JStr ''buenos dias'')]))))
          = JStr ''buenos dias''"
    using displayed_text_of_response [OF a, where s = init and t = "''buenos dias''"] by blast
  with f have "textarea_value (render (onsettled init (JsonResolved
          (JObj [(''id'', JNum 7), (''transcription'', JStr ''buenos dias'')]))))
          = JStr ''buenos dias''"
    by blast
  moreover have "textarea_value (render (onsettled init (JsonResolved (JObj [(''id'', JNum 7)]))))
        = (case spec_transcription_field (JObj [(''id'', JNum 7)]) of
                None \<Rightarrow> JStr []
              | Some v \<Rightarrow> if truthy v then v else JStr [])"
    using displayed_text_of_response [OF b, where s = init] by blast
  ultimately show ?thesis using f by simp
qed

end
